theory Spec2Isabelle
  imports Complex_Main
begin

section \<open>Values, rules and queries\<close>

text \<open>
  Values that occur in rules, customer documents and compiled queries. A number is a
  finite JavaScript Number, read as the rational it denotes (comparison of finite doubles
  is comparison of these rationals). A date is its time value in milliseconds since the
  epoch; \<open>InvalidDate\<close> is the Date whose time value is NaN; \<open>Undefined\<close> is the
  value of a property that an object does not define.
\<close>

datatype jsval =
    Num rat
  | Str string
  | Arr "jsval list"
  | DateV int
  | InvalidDate
  | Undefined

text \<open>A rule of a segment (models/Segment.js). \<open>logicalOperator\<close> may be absent.\<close>

record rule =
  field :: string
  operator :: string
  val :: jsval
  logicalOperator :: "string option"

text \<open>
  The query documents that \<open>buildSegmentQuery\<close> builds. A condition is an object whose
  keys are field paths; the value under a key is either an object of comparison
  operators (\<open>{ $gte: a, $lt: b }\<close>) or a plain value (equality). A query is a
  condition, or \<open>{ $and: conditions }\<close>, or \<open>{ $or: conditions }\<close>.
\<close>

datatype opexpr =
    OpGt jsval
  | OpLt jsval
  | OpGte jsval
  | OpLte jsval
  | OpNe jsval
  | OpIn "jsval list"
  | OpNin "jsval list"

datatype fcond = Ops "opexpr list" | Equals jsval

type_synonym condition = "(string \<times> fcond) list"

datatype query = Cond condition | QAnd "condition list" | QOr "condition list"

text \<open>
  What the compiler reads from the JavaScript runtime: the clock (\<open>new Date()\<close>), the
  local day of the month of that instant (\<open>getDate()\<close>), the offset of local time from
  UTC, and the runtime's conversions of a value that is not already a number or a
  string: ToNumber, with \<open>None\<close> for NaN and the infinities (each of them makes the
  date invalid), and ToString. The offset is ECMAScript's \<open>LocalTZA(t, isUTC)\<close>: the
  offset in force at the instant \<open>t\<close> when \<open>isUTC\<close> holds, and the offset in force at
  the local time value \<open>t\<close> otherwise; it changes where daylight saving time begins
  or ends.
\<close>

record runtime =
  now :: int
  localDate :: int
  localTZA :: "int \<Rightarrow> bool \<Rightarrow> int"
  toNumberOf :: "jsval \<Rightarrow> rat option"
  toStringOf :: "jsval \<Rightarrow> string"

definition msPerDay :: int where
  "msPerDay = 24 * 60 * 60 * 1000"

definition toNumber :: "runtime \<Rightarrow> jsval \<Rightarrow> rat option" where
  "toNumber rt v = (case v of Num n \<Rightarrow> Some n | _ \<Rightarrow> toNumberOf rt v)"

definition toPropertyKey :: "runtime \<Rightarrow> jsval \<Rightarrow> string" where
  "toPropertyKey rt v = (case v of Str s \<Rightarrow> s | _ \<Rightarrow> toStringOf rt v)"

text \<open>ToIntegerOrInfinity on a finite number: truncation towards zero.\<close>

definition toInteger :: "rat \<Rightarrow> int" where
  "toInteger q = (if 0 \<le> q then \<lfloor>q\<rfloor> else \<lceil>q\<rceil>)"

text \<open>TimeClip: a time value beyond 8.64e15 ms from the epoch is NaN.\<close>

definition timeClip :: "int \<Rightarrow> int option" where
  "timeClip t = (if \<bar>t\<bar> \<le> 8640000000000000 then Some t else None)"

text \<open>
  \<open>const daysAgo = new Date(); daysAgo.setDate(daysAgo.getDate() - rule.value)\<close>.
  \<open>setDate(dt)\<close> works on local time, \<open>LocalTime(t) = t + LocalTZA(t, true)\<close>: it
  keeps the local year, month and time within the day and moves to day \<open>dt\<close> of that
  month, counted from the month's first day, so the day number becomes
  \<open>Day(first of month) + ToIntegerOrInfinity(dt) - 1\<close>; the local time value found is
  turned back with the offset in force there, \<open>UTC(t) = t - LocalTZA(t, false)\<close>. The
  result is the new time value, \<open>None\<close> when it is NaN (Invalid Date).
\<close>

definition daysAgo :: "runtime \<Rightarrow> jsval \<Rightarrow> int option" where
  "daysAgo rt v =
     (case toNumber rt v of
        None \<Rightarrow> None
      | Some n \<Rightarrow>
          let t = now rt + localTZA rt (now rt) True;
              dt = of_int (localDate rt) - n;
              firstOfMonth = t div msPerDay - (localDate rt - 1);
              newDate = (firstOfMonth + toInteger dt - 1) * msPerDay + t mod msPerDay
          in timeClip (newDate - localTZA rt newDate False))"

text \<open>
  The cutoff in closed form. \<open>daysBack\<close> is the whole number of days by which
  \<open>setDate\<close> moves the date back for the rule value \<open>q\<close>, \<open>wallClock\<close> the local
  time value that many days before the local time of the clock reading (the same time
  of day on the earlier date), and \<open>cutoff\<close> the instant at which local clocks show it.
\<close>

definition daysBack :: "runtime \<Rightarrow> rat \<Rightarrow> int" where
  "daysBack rt q = localDate rt - toInteger (of_int (localDate rt) - q)"

definition wallClock :: "runtime \<Rightarrow> rat \<Rightarrow> int" where
  "wallClock rt q = now rt + localTZA rt (now rt) True - daysBack rt q * msPerDay"

definition cutoff :: "runtime \<Rightarrow> rat \<Rightarrow> int" where
  "cutoff rt q = wallClock rt q - localTZA rt (wallClock rt q) False"

definition dateVal :: "int option \<Rightarrow> jsval" where
  "dateVal d = (case d of None \<Rightarrow> InvalidDate | Some t \<Rightarrow> DateV t)"

text \<open>\<open>new Date(daysAgo.getTime() + 24 * 60 * 60 * 1000)\<close>\<close>

definition nextDay :: "int option \<Rightarrow> int option" where
  "nextDay d = (case d of None \<Rightarrow> None | Some t \<Rightarrow> timeClip (t + 24 * 60 * 60 * 1000))"

text \<open>
  The object literal \<open>tierRanges\<close>: its four own properties (\<open>max = None\<close> stands for
  \<open>Infinity\<close>), and the property names it inherits from \<open>Object.prototype\<close>, whose
  values are functions or objects and therefore truthy.
\<close>

datatype tierEntry = Range rat "rat option" | Inherited | Missing

definition objectPrototypeKeys :: "string list" where
  "objectPrototypeKeys =
     [''constructor'', ''hasOwnProperty'', ''isPrototypeOf'', ''propertyIsEnumerable'',
      ''toLocaleString'', ''toString'', ''valueOf'', ''__proto__'',
      ''__defineGetter__'', ''__defineSetter__'', ''__lookupGetter__'',
      ''__lookupSetter__'']"

definition tierRanges :: "string \<Rightarrow> tierEntry" where
  "tierRanges k =
     (if k = ''PREMIUM'' then Range 50001 None
      else if k = ''GOLD'' then Range 20001 (Some 50000)
      else if k = ''SILVER'' then Range 5001 (Some 20000)
      else if k = ''BRONZE'' then Range 0 (Some 5000)
      else if k \<in> set objectPrototypeKeys then Inherited
      else Missing)"

text \<open>The body of the loop of \<open>buildSegmentQuery\<close>: the condition of one rule.\<close>

definition ruleCondition :: "runtime \<Rightarrow> rule \<Rightarrow> condition" where
  "ruleCondition rt r =
     (if field r = ''daysSinceLastVisit'' then
        (let d = daysAgo rt (val r) in
         if operator r = ''>'' then [(''lastVisit'', Ops [OpLt (dateVal d)])]
         else if operator r = ''<'' then [(''lastVisit'', Ops [OpGt (dateVal d)])]
         else if operator r = ''>='' then [(''lastVisit'', Ops [OpLte (dateVal d)])]
         else if operator r = ''<='' then [(''lastVisit'', Ops [OpGte (dateVal d)])]
         else if operator r = ''='' then
           [(''lastVisit'', Ops [OpGte (dateVal d), OpLt (dateVal (nextDay d))])]
         else [])
      else if field r = ''customerTier'' then
        (if operator r = ''='' then
           (case tierRanges (toPropertyKey rt (val r)) of
              Range lo hi \<Rightarrow>
                [(''totalSpent'',
                  Ops (OpGte (Num lo) # (case hi of None \<Rightarrow> [] | Some h \<Rightarrow> [OpLte (Num h)])))]
            | Inherited \<Rightarrow> [(''totalSpent'', Ops [OpGte Undefined, OpLte Undefined])]
            | Missing \<Rightarrow> [])
         else [])
      else
        (if operator r = ''>'' then [(field r, Ops [OpGt (val r)])]
         else if operator r = ''<'' then [(field r, Ops [OpLt (val r)])]
         else if operator r = ''>='' then [(field r, Ops [OpGte (val r)])]
         else if operator r = ''<='' then [(field r, Ops [OpLte (val r)])]
         else if operator r = ''='' then [(field r, Equals (val r))]
         else if operator r = ''!='' then [(field r, Ops [OpNe (val r)])]
         else if operator r = ''in'' then
           [(field r, Ops [OpIn (case val r of Arr xs \<Rightarrow> xs | v \<Rightarrow> [v])])]
         else if operator r = ''not_in'' then
           [(field r, Ops [OpNin (case val r of Arr xs \<Rightarrow> xs | v \<Rightarrow> [v])])]
         else []))"

text \<open>
  \<open>buildSegmentQuery(rules)\<close> (routes/segments.js and, identically, routes/campaigns.js).
  \<open>None\<close> is a null or undefined argument.
\<close>

definition buildSegmentQuery :: "runtime \<Rightarrow> rule list option \<Rightarrow> query" where
  "buildSegmentQuery rt rules =
     (case rules of
        None \<Rightarrow> Cond []
      | Some rs \<Rightarrow>
          if length rs = 0 then Cond []
          else
            let conditions = map (ruleCondition rt) rs in
            if length conditions = 1 then Cond (conditions ! 0)
            else if logicalOperator (rs ! 0) = Some ''OR'' then QOr conditions
            else QAnd conditions)"


section \<open>Customers and the evaluation of a query\<close>

text \<open>
  A customer document (models/Customer.js), with the paths a rule can address.
  \<open>lastVisit\<close> and \<open>location.city\<close> have no default and may be absent.
\<close>

record customer =
  custId :: string
  name :: string
  totalSpent :: rat
  visitCount :: rat
  lastVisit :: "int option"
  city :: "string option"

text \<open>The virtual tier of a customer (the getter registered in models/Customer.js).\<close>

definition customerTier :: "customer \<Rightarrow> string" where
  "customerTier c =
     (if totalSpent c > 50000 then ''PREMIUM''
      else if totalSpent c > 20000 then ''GOLD''
      else if totalSpent c > 5000 then ''SILVER''
      else ''BRONZE'')"

definition fieldValue :: "customer \<Rightarrow> string \<Rightarrow> jsval option" where
  "fieldValue c f =
     (if f = ''totalSpent'' then Some (Num (totalSpent c))
      else if f = ''visitCount'' then Some (Num (visitCount c))
      else if f = ''lastVisit'' then map_option DateV (lastVisit c)
      else if f = ''location.city'' then map_option Str (city c)
      else None)"

text \<open>
  The document store's matching of a stored value against a query value. Ordering
  operators compare values of one type only (numbers, strings by code unit, dates); a
  query value of another type does not match. The query value \<open>Undefined\<close> is sent to
  the store as null, which equals an absent field only. The casting of query values to
  the schema type by the object mapper is not part of this model.
\<close>

fun strLess :: "string \<Rightarrow> string \<Rightarrow> bool" where
  "strLess [] [] = False"
| "strLess [] (y # ys) = True"
| "strLess (x # xs) [] = False"
| "strLess (x # xs) (y # ys) =
     ((of_char x :: nat) < of_char y \<or> (x = y \<and> strLess xs ys))"

fun lessVal :: "jsval \<Rightarrow> jsval \<Rightarrow> bool" where
  "lessVal (Num a) (Num b) = (a < b)"
| "lessVal (Str a) (Str b) = strLess a b"
| "lessVal (DateV a) (DateV b) = (a < b)"
| "lessVal _ _ = False"

definition eqMatch :: "jsval option \<Rightarrow> jsval \<Rightarrow> bool" where
  "eqMatch x q = (case x of None \<Rightarrow> q = Undefined | Some v \<Rightarrow> v = q)"

fun matchOp :: "jsval option \<Rightarrow> opexpr \<Rightarrow> bool" where
  "matchOp x (OpGt q) = (case x of None \<Rightarrow> False | Some v \<Rightarrow> lessVal q v)"
| "matchOp x (OpLt q) = (case x of None \<Rightarrow> False | Some v \<Rightarrow> lessVal v q)"
| "matchOp x (OpGte q) = (case x of None \<Rightarrow> q = Undefined | Some v \<Rightarrow> lessVal q v \<or> v = q)"
| "matchOp x (OpLte q) = (case x of None \<Rightarrow> q = Undefined | Some v \<Rightarrow> lessVal v q \<or> v = q)"
| "matchOp x (OpNe q) = (\<not> eqMatch x q)"
| "matchOp x (OpIn qs) = list_ex (eqMatch x) qs"
| "matchOp x (OpNin qs) = (\<not> list_ex (eqMatch x) qs)"

fun matchField :: "customer \<Rightarrow> string \<times> fcond \<Rightarrow> bool" where
  "matchField c (f, Ops os) = list_all (matchOp (fieldValue c f)) os"
| "matchField c (f, Equals q) = eqMatch (fieldValue c f) q"

definition matchCond :: "customer \<Rightarrow> condition \<Rightarrow> bool" where
  "matchCond c cond = list_all (matchField c) cond"

fun matches :: "customer \<Rightarrow> query \<Rightarrow> bool" where
  "matches c (Cond cond) = matchCond c cond"
| "matches c (QAnd conds) = list_all (matchCond c) conds"
| "matches c (QOr conds) = list_ex (matchCond c) conds"

text \<open>\<open>Customer.find(query)\<close> and \<open>Customer.countDocuments(query)\<close>.\<close>

definition findCustomers :: "query \<Rightarrow> customer list \<Rightarrow> customer list" where
  "findCustomers q cs = filter (\<lambda>c. matches c q) cs"

definition countDocuments :: "query \<Rightarrow> customer list \<Rightarrow> nat" where
  "countDocuments q cs = length (findCustomers q cs)"

section \<open>Campaigns, communication logs and the database\<close>

record stats =
  sent :: nat
  failed :: nat
  delivered :: nat
  opened :: nat
  clicked :: nat

record campaign =
  cname :: string
  segmentId :: string
  cmessage :: string
  audienceSize :: nat
  cstatus :: string
  createdBy :: string
  stats :: stats

text \<open>
  A communication log (models/CommunicationLog.js). The dispatcher always writes a
  \<open>status\<close>; \<open>status = None\<close> is a stored log whose status has been removed or set to
  null.
\<close>

record communicationLog =
  campaignId :: string
  customerId :: string
  message :: string
  status :: "string option"
  sentAt :: "int option"
  deliveredAt :: "int option"
  failureReason :: "string option"
  vendorMessageId :: string

record segment =
  segName :: string
  rules :: "rule list"

text \<open>
  The collections. Campaigns and segments are keyed by their \<open>_id\<close> (an ObjectId, written
  as its 24 hexadecimal characters); the logs are kept in insertion order, and a log's
  position identifies the document.
\<close>

record db =
  segments :: "string \<rightharpoonup> segment"
  customers :: "customer list"
  campaigns :: "string \<rightharpoonup> campaign"
  logs :: "communicationLog list"

text \<open>The enum of \<open>status\<close> in the CommunicationLog schema, checked on every save.\<close>

definition logStatusEnum :: "string list" where
  "logStatusEnum = [''PENDING'', ''SENT'', ''FAILED'', ''DELIVERED'', ''OPENED'', ''CLICKED'']"

datatype body =
    ErrorBody string
  | ValidationFailed "string list"
  | Launched campaign
  | Message string

type_synonym response = "nat \<times> body"


section \<open>The campaign dispatcher\<close>

text \<open>
  The substitution of \<open>String.prototype.replace\<close> for a pattern without capture
  groups: in the replacement text \<open>$$\<close> is a dollar sign, \<open>$&\<close> the matched text,
  \<open>$`\<close> the text before the match and \<open>$'\<close> the text after it; every other
  character, and a dollar sign before anything else, stands for itself.
\<close>

fun getSubstitution :: "string \<Rightarrow> string \<Rightarrow> string \<Rightarrow> string \<Rightarrow> string" where
  "getSubstitution m pre post [] = []"
| "getSubstitution m pre post [c] = [c]"
| "getSubstitution m pre post (c # e # r) =
     (if c = CHR ''$'' \<and> e = CHR ''$'' then CHR ''$'' # getSubstitution m pre post r
      else if c = CHR ''$'' \<and> e = CHR ''&'' then m @ getSubstitution m pre post r
      else if c = CHR ''$'' \<and> e = CHR 0x60 then pre @ getSubstitution m pre post r
      else if c = CHR ''$'' \<and> e = CHR 0x27 then post @ getSubstitution m pre post r
      else c # getSubstitution m pre post (e # r))"

text \<open>
  \<open>template.replace(/\{name\}/g, repl)\<close>: every occurrence of \<open>{name}\<close>, found from
  left to right in the template, is replaced; \<open>pre\<close> is the part of the template
  already passed.
\<close>

function replaceName :: "string \<Rightarrow> string \<Rightarrow> string \<Rightarrow> string" where
  "replaceName pre s repl =
     (if take 6 s = ''{name}'' then
        getSubstitution ''{name}'' pre (drop 6 s) repl
          @ replaceName (pre @ ''{name}'') (drop 6 s) repl
      else (case s of [] \<Rightarrow> [] | c # s' \<Rightarrow> c # replaceName (pre @ [c]) s' repl))"
  by pat_completeness auto
termination
  apply (relation "measure (\<lambda>(pre, s, repl). length s)")
    apply auto
  subgoal for s by (cases s) auto
  done

declare replaceName.simps [simp del]

definition personalize :: "string \<Rightarrow> string \<Rightarrow> string" where
  "personalize template nm = replaceName [] template nm"

text \<open>The decimal digits of \<open>Date.now()\<close> inside a template literal.\<close>

function showDigits :: "int \<Rightarrow> string" where
  "showDigits n =
     (if n < 10 then [''0123456789'' ! nat n]
      else showDigits (n div 10) @ [''0123456789'' ! nat (n mod 10)])"
  by pat_completeness auto
termination
  by (relation "measure nat") auto

declare showDigits.simps [simp del]

definition showInt :: "int \<Rightarrow> string" where
  "showInt i = (if i < 0 then CHR ''-'' # showDigits (- i) else showDigits i)"

text \<open>
  \<open>`msg_${campaign._id}_${customer._id}_${Date.now()}`\<close>
\<close>

definition mkVendorMessageId :: "string \<Rightarrow> string \<Rightarrow> int \<Rightarrow> string" where
  "mkVendorMessageId campId cust t = ''msg_'' @ campId @ ''_'' @ cust @ ''_'' @ showInt t"

text \<open>
  What one call of \<open>VendorAPI.sendMessage\<close> does, as seen by its caller: it resolves
  with \<open>success: true\<close>, resolves with \<open>success: false\<close> and an error text, or rejects.
  Which one is not determined by the program; the dispatcher is given it as a function
  of the arguments of the call.
\<close>

datatype vendorResult = Accepted | Rejected string | Thrown

type_synonym vendor = "string \<Rightarrow> string \<Rightarrow> string \<Rightarrow> vendorResult"

text \<open>The validated body of a launch request (\<open>campaignSchema\<close>).\<close>

record campaignInput =
  inName :: string
  inSegmentId :: string
  inMessage :: string

definition zeroStats :: stats where
  "zeroStats = \<lparr>sent = 0, failed = 0, delivered = 0, opened = 0, clicked = 0\<rparr>"

text \<open>
  The first part of the callback of \<open>customers.map\<close>, up to the first save: the log is
  created with status PENDING. The clock readings within one request are taken as equal.
\<close>

definition newLog :: "runtime \<Rightarrow> string \<Rightarrow> string \<Rightarrow> customer \<Rightarrow> communicationLog" where
  "newLog rt campId template cust =
     \<lparr>campaignId = campId,
      customerId = custId cust,
      message = personalize template (name cust),
      status = Some ''PENDING'',
      sentAt = None,
      deliveredAt = None,
      failureReason = None,
      vendorMessageId = mkVendorMessageId campId (custId cust) (now rt)\<rparr>"

definition pendingLogs :: "runtime \<Rightarrow> string \<Rightarrow> string \<Rightarrow> customer list \<Rightarrow> communicationLog list" where
  "pendingLogs rt campId template custs = map (newLog rt campId template) custs"

text \<open>
  The second part of the callback: the outcome of the send is written to the task's own
  log and counted on the campaign document held in memory.
\<close>

fun settle :: "runtime \<Rightarrow> vendorResult \<Rightarrow> communicationLog \<Rightarrow> stats \<Rightarrow> communicationLog \<times> stats" where
  "settle rt Accepted l st =
     (l\<lparr>status := Some ''SENT'', sentAt := Some (now rt)\<rparr>, st\<lparr>sent := sent st + 1\<rparr>)"
| "settle rt (Rejected e) l st =
     (l\<lparr>status := Some ''FAILED'', failureReason := Some e\<rparr>, st\<lparr>failed := failed st + 1\<rparr>)"
| "settle rt Thrown l st =
     (l\<lparr>status := Some ''FAILED'', failureReason := Some ''Vendor API error''\<rparr>,
      st\<lparr>failed := failed st + 1\<rparr>)"

text \<open>
  \<open>VendorAPI.sendMessage(customer._id, personalizedMessage, vendorMessageId)\<close>, with the
  three arguments read from the task's log.
\<close>

definition sendMessage :: "vendor \<Rightarrow> communicationLog \<Rightarrow> vendorResult" where
  "sendMessage v l = v (customerId l) (message l) (vendorMessageId l)"

text \<open>
  \<open>Promise.all(sendPromises)\<close>. Each task writes its own log only and adds one to one
  counter, so every order in which the sends settle gives the same logs and counters; the
  model settles them in the order of the audience.
\<close>

fun settleAll :: "runtime \<Rightarrow> vendor \<Rightarrow> communicationLog list \<Rightarrow> stats \<Rightarrow> communicationLog list \<times> stats" where
  "settleAll rt v [] st = ([], st)"
| "settleAll rt v (l # ls) st =
     (case settle rt (sendMessage v l) l st of
        (l', st') \<Rightarrow> (case settleAll rt v ls st' of (ls', st'') \<Rightarrow> (l' # ls', st'')))"

text \<open>
  \<open>POST /api/campaigns\<close>. The arguments are the runtime, the vendor, the \<open>_id\<close> that
  \<open>new Campaign\<close> generates, the authenticated user, and the result of
  \<open>campaignSchema.validate\<close> (the error details, or the validated value). Writes to the
  database are taken to succeed, except the insertion of a campaign whose \<open>_id\<close> exists,
  which throws and is answered with 500. The handler is one step of the model: no
  receipt is ingested between its first and its last write. A \<open>segmentId\<close> that cannot
  be read as an ObjectId makes the lookup throw instead of finding nothing; nothing is
  written in either case, and the model answers both as a segment that is not found.
\<close>

definition launch ::
  "runtime \<Rightarrow> vendor \<Rightarrow> string \<Rightarrow> string \<Rightarrow> string list + campaignInput \<Rightarrow> db \<Rightarrow> response \<times> db" where
  "launch rt v newId user validated d =
     (case validated of
        Inl details \<Rightarrow> ((400, ValidationFailed details), d)
      | Inr value \<Rightarrow>
          (case segments d (inSegmentId value) of
             None \<Rightarrow> ((404, ErrorBody ''Segment not found''), d)
           | Some segment \<Rightarrow>
               let query = buildSegmentQuery rt (Some (rules segment));
                   custs = findCustomers query (customers d)
               in
               if length custs = 0 then ((400, ErrorBody ''No customers found in segment''), d)
               else if campaigns d newId \<noteq> None then
                 ((500, ErrorBody ''Failed to create campaign''), d)
               else
                 let campaign0 =
                       \<lparr>cname = inName value, segmentId = inSegmentId value,
                        cmessage = inMessage value, audienceSize = length custs,
                        cstatus = ''RUNNING'', createdBy = user, stats = zeroStats\<rparr>;
                     pending = pendingLogs rt newId (inMessage value) custs
                 in
                 (case settleAll rt v pending (stats campaign0) of
                    (settled, st) \<Rightarrow>
                      let campaign1 = campaign0\<lparr>stats := st, cstatus := ''COMPLETED''\<rparr>
                      in ((201, Launched campaign1),
                          d\<lparr>campaigns := (campaigns d)(newId \<mapsto> campaign1),
                            logs := logs d @ settled\<rparr>))))"

text \<open>
  Names for what a launch computes: the audience of a segment, the log a task leaves
  when its send has settled, whether a send was accepted, and the campaign document as
  the dispatcher saves it at the end.
\<close>

definition audience :: "runtime \<Rightarrow> segment \<Rightarrow> db \<Rightarrow> customer list" where
  "audience rt sg d = findCustomers (buildSegmentQuery rt (Some (rules sg))) (customers d)"

definition settledLog :: "runtime \<Rightarrow> vendor \<Rightarrow> communicationLog \<Rightarrow> communicationLog" where
  "settledLog rt v l = fst (settle rt (sendMessage v l) l zeroStats)"

definition accepted :: "vendor \<Rightarrow> communicationLog \<Rightarrow> bool" where
  "accepted v l = (sendMessage v l = Accepted)"

definition completed ::
  "runtime \<Rightarrow> vendor \<Rightarrow> string \<Rightarrow> campaignInput \<Rightarrow> communicationLog list \<Rightarrow> campaign" where
  "completed rt v user value pending =
     \<lparr>cname = inName value, segmentId = inSegmentId value, cmessage = inMessage value,
      audienceSize = length pending, cstatus = ''COMPLETED'', createdBy = user,
      stats = \<lparr>sent = length (filter (accepted v) pending),
               failed = length (filter (\<lambda>l. \<not> accepted v l) pending),
               delivered = 0, opened = 0, clicked = 0\<rparr>\<rparr>"

section \<open>The receipt reconciler\<close>

text \<open>
  The body of \<open>POST /api/campaigns/delivery-receipt\<close>, which the handler reads as it
  comes. Its \<open>status\<close> is absent, null, a string, or some other value (a number, a
  boolean, an array, an object). Its \<open>deliveredAt\<close> is absent or falsy (\<open>NoDate\<close>), or
  \<open>new Date(deliveredAt)\<close> is a date (\<open>DateAt\<close>) or an Invalid Date (\<open>BadDate\<close>).
\<close>

datatype statusField = NoStatus | NullStatus | StatusText string | OtherStatus

datatype dateField = NoDate | DateAt int | BadDate

record receipt =
  rVendorMessageId :: string
  rStatus :: statusField
  rDeliveredAt :: dateField

text \<open>\<open>CommunicationLog.findOne({ vendorMessageId })\<close>: the position of the first match.\<close>

fun findOne :: "string \<Rightarrow> communicationLog list \<Rightarrow> nat option" where
  "findOne vid [] = None"
| "findOne vid (l # ls) =
     (if vendorMessageId l = vid then Some 0 else map_option Suc (findOne vid ls))"

text \<open>
  What saving the log makes of the status assigned to it (the schema's String path with
  its enum). An absent status removes the field and null is kept as null; validation
  passes both, and the log is left without a status (\<open>Some None\<close>). A string is kept
  when it is one of the enum's values. Any other string fails validation, and so does
  any other value (a number or a boolean is cast to a string outside the enum, an array
  or an object cannot be cast): the save throws (\<open>None\<close>).
\<close>

definition castStatus :: "statusField \<Rightarrow> string option option" where
  "castStatus f =
     (case f of
        NoStatus \<Rightarrow> Some None
      | NullStatus \<Rightarrow> Some None
      | StatusText s \<Rightarrow> if s \<in> set logStatusEnum then Some (Some s) else None
      | OtherStatus \<Rightarrow> None)"

text \<open>
  The handler. The log found is given the receipt's status and, when \<open>deliveredAt\<close> is
  truthy, its date, and is saved; a status that fails validation or an Invalid Date makes
  the save throw, and the handler answers 500 with nothing written. The delivery is
  counted when the status of the body is the string DELIVERED.
\<close>

definition ingest :: "receipt \<Rightarrow> db \<Rightarrow> response \<times> db" where
  "ingest r d =
     (case findOne (rVendorMessageId r) (logs d) of
        None \<Rightarrow> ((404, ErrorBody ''Communication log not found''), d)
      | Some i \<Rightarrow>
          (case castStatus (rStatus r) of
             None \<Rightarrow> ((500, ErrorBody ''Failed to process delivery receipt''), d)
           | Some st \<Rightarrow>
               if rDeliveredAt r = BadDate then
                 ((500, ErrorBody ''Failed to process delivery receipt''), d)
               else
                 let commLog0 = logs d ! i;
                     commLog1 = commLog0\<lparr>status := st\<rparr>;
                     commLog2 = (case rDeliveredAt r of
                                   DateAt t \<Rightarrow> commLog1\<lparr>deliveredAt := Some t\<rparr>
                                 | _ \<Rightarrow> commLog1);
                     d1 = d\<lparr>logs := (logs d)[i := commLog2]\<rparr>
                 in
                 (case campaigns d1 (campaignId commLog2) of
                    None \<Rightarrow> ((200, Message ''Delivery receipt processed''), d1)
                  | Some c \<Rightarrow>
                      if rStatus r = StatusText ''DELIVERED'' then
                        ((200, Message ''Delivery receipt processed''),
                         d1\<lparr>campaigns := (campaigns d1)(campaignId commLog2 \<mapsto>
                               c\<lparr>stats := (stats c)\<lparr>delivered := delivered (stats c) + 1\<rparr>\<rparr>)\<rparr>)
                      else ((200, Message ''Delivery receipt processed''), d1))))"

text \<open>
  Names for the two writes of the handler: the log with the receipt applied, and the
  campaign with one more delivery counted.
\<close>

definition receive :: "receipt \<Rightarrow> communicationLog \<Rightarrow> communicationLog" where
  "receive r l =
     (case castStatus (rStatus r) of
        None \<Rightarrow> l
      | Some st \<Rightarrow>
          (case rDeliveredAt r of
             DateAt t \<Rightarrow> l\<lparr>status := st, deliveredAt := Some t\<rparr>
           | _ \<Rightarrow> l\<lparr>status := st\<rparr>))"

definition countDelivered :: "campaign \<Rightarrow> campaign" where
  "countDelivered c = c\<lparr>stats := (stats c)\<lparr>delivered := delivered (stats c) + 1\<rparr>\<rparr>"

section \<open>Well-formed databases and reachable states\<close>

text \<open>
  What the store guarantees and the dispatcher maintains: an \<open>_id\<close> is an ObjectId of 24
  characters, customers have distinct ids, and every log carries the id of an existing
  campaign, which its \<open>vendorMessageId\<close> starts with after \<open>msg_\<close>; no two logs share a
  \<open>vendorMessageId\<close>.
\<close>

definition wfdb :: "db \<Rightarrow> bool" where
  "wfdb d =
     ((\<forall>c \<in> set (customers d). length (custId c) = 24)
      \<and> distinct (map custId (customers d))
      \<and> (\<forall>l \<in> set (logs d).
            length (campaignId l) = 24
            \<and> campaigns d (campaignId l) \<noteq> None
            \<and> take 28 (vendorMessageId l) = ''msg_'' @ campaignId l)
      \<and> distinct (map vendorMessageId (logs d)))"

text \<open>
  The states the system reaches: it starts without campaigns and logs; campaigns are
  launched, receipts are ingested, and the other routes change customers and segments.
\<close>

inductive reachable :: "db \<Rightarrow> bool" where
  start:
    "\<lbrakk>\<forall>c \<in> set cs. length (custId c) = 24; distinct (map custId cs)\<rbrakk>
     \<Longrightarrow> reachable \<lparr>segments = sg, customers = cs, campaigns = Map.empty, logs = []\<rparr>"
| launched:
    "\<lbrakk>reachable d; length newId = 24\<rbrakk>
     \<Longrightarrow> reachable (snd (launch rt v newId user validated d))"
| ingested:
    "reachable d \<Longrightarrow> reachable (snd (ingest r d))"
| other_routes:
    "\<lbrakk>reachable d; \<forall>c \<in> set cs. length (custId c) = 24; distinct (map custId cs)\<rbrakk>
     \<Longrightarrow> reachable (d\<lparr>segments := sg, customers := cs\<rparr>)"

section \<open>Example data\<close>

definition rt0 :: runtime where
  "rt0 = \<lparr>now = 1700000000000, localDate = 15, localTZA = (\<lambda>t isUTC. 19800000),
          toNumberOf = (\<lambda>v. None), toStringOf = (\<lambda>v. [])\<rparr>"


definition asha :: customer where
  "asha = \<lparr>custId = ''64b7f0c2a1d3e4f5a6b7c8d9'', name = ''Asha'', totalSpent = 15000,
           visitCount = 4, lastVisit = Some 1696544000000, city = Some ''Pune''\<rparr>"

definition ravi :: customer where
  "ravi = \<lparr>custId = ''64b7f0c2a1d3e4f5a6b7c8da'', name = ''Ravi'', totalSpent = 40001 / 2,
           visitCount = 9, lastVisit = Some 1699136000000, city = Some ''Delhi''\<rparr>"



definition tierRule :: "string \<Rightarrow> jsval \<Rightarrow> rule" where
  "tierRule op v = \<lparr>field = ''customerTier'', operator = op, val = v, logicalOperator = None\<rparr>"

definition daysRule :: "string \<Rightarrow> rat \<Rightarrow> rule" where
  "daysRule op q =
     \<lparr>field = ''daysSinceLastVisit'', operator = op, val = Num q, logicalOperator = None\<rparr>"

definition spentRule :: rule where
  "spentRule =
     \<lparr>field = ''totalSpent'', operator = ''>'', val = Num 10000, logicalOperator = Some ''AND''\<rparr>"

definition seg0 :: string where
  "seg0 = ''64b7f0c2a1d3e4f5a6b7c001''"

definition camp0 :: string where
  "camp0 = ''64b7f0c2a1d3e4f5a6b7c100''"

definition user0 :: string where
  "user0 = ''64b7f0c2a1d3e4f5a6b7c200''"

definition spenders :: segment where
  "spenders = \<lparr>segName = ''Spenders'', rules = [spentRule]\<rparr>"

definition db0 :: db where
  "db0 = \<lparr>segments = [seg0 \<mapsto> spenders],
          customers = [asha, ravi],
          campaigns = Map.empty,
          logs = []\<rparr>"

definition input0 :: campaignInput where
  "input0 = \<lparr>inName = ''Diwali'', inSegmentId = seg0, inMessage = ''Hi {name}, enjoy 20% off!''\<rparr>"

definition acceptAll :: vendor where
  "acceptAll a b c = Accepted"

definition rejectAll :: vendor where
  "rejectAll a b c = Rejected ''Delivery failed''"

definition db1 :: db where
  "db1 = snd (launch rt0 acceptAll camp0 user0 (Inr input0) db0)"

definition db2 :: db where
  "db2 = snd (launch rt0 rejectAll camp0 user0 (Inr input0) db0)"

definition ashaMessageId :: string where
  "ashaMessageId = ''msg_64b7f0c2a1d3e4f5a6b7c100_64b7f0c2a1d3e4f5a6b7c8d9_1700000000000''"

definition deliveredReceipt :: receipt where
  "deliveredReceipt =
     \<lparr>rVendorMessageId = ashaMessageId, rStatus = StatusText ''DELIVERED'',
      rDeliveredAt = DateAt 1700000003000\<rparr>"



section \<open>The rule compiler\<close>

lemma toInteger_of_int: "toInteger (of_int k) = k"
  by (simp add: toInteger_def)

text \<open>
  What \<open>setDate\<close> computes is the cutoff in closed form: the first day of the month and
  the time within the day add up to the local time of the clock reading.
\<close>

lemma daysAgo_cutoff: "daysAgo rt (Num q) = timeClip (cutoff rt q)"
proof -
  let ?t = "now rt + localTZA rt (now rt) True"
  let ?k = "toInteger (of_int (localDate rt) - q)"
  have "(?t div msPerDay - (localDate rt - 1) + ?k - 1) * msPerDay
        = (?t div msPerDay) * msPerDay - (localDate rt - ?k) * msPerDay"
    by (simp add: algebra_simps)
  moreover have "(?t div msPerDay) * msPerDay + ?t mod msPerDay = ?t" by simp
  ultimately have "(?t div msPerDay - (localDate rt - 1) + ?k - 1) * msPerDay + ?t mod msPerDay
        = wallClock rt q"
    unfolding wallClock_def daysBack_def by linarith
  then show ?thesis
    by (simp add: daysAgo_def toNumber_def Let_def cutoff_def)
qed

lemma daysBack_whole: "daysBack rt (of_int n) = n"
  using toInteger_of_int [of "localDate rt - n"] by (simp add: daysBack_def)



text \<open>With one offset throughout, the cutoff is whole days of 24 hours before the clock
  reading.\<close>

lemma cutoff_constant_offset:
  "localTZA rt (wallClock rt q) False = localTZA rt (now rt) True
   \<Longrightarrow> cutoff rt q = now rt - daysBack rt q * msPerDay"
  by (simp add: cutoff_def wallClock_def)

lemma build_single: "buildSegmentQuery rt (Some [r]) = Cond (ruleCondition rt r)"
  by (simp add: buildSegmentQuery_def)

lemma tier_condition:
  "ruleCondition rt (tierRule ''='' (Str k)) =
     (case tierRanges k of
        Range lo hi \<Rightarrow>
          [(''totalSpent'',
            Ops (OpGte (Num lo) # (case hi of None \<Rightarrow> [] | Some h \<Rightarrow> [OpLte (Num h)])))]
      | Inherited \<Rightarrow> [(''totalSpent'', Ops [OpGte Undefined, OpLte Undefined])]
      | Missing \<Rightarrow> [])"
  by (simp add: ruleCondition_def tierRule_def toPropertyKey_def)

text \<open>The range that each of the four tier rules tests.\<close>

lemma tier_matches:
  "matches c (buildSegmentQuery rt (Some [tierRule ''='' (Str ''BRONZE'')]))
     \<longleftrightarrow> 0 \<le> totalSpent c \<and> totalSpent c \<le> 5000"
  "matches c (buildSegmentQuery rt (Some [tierRule ''='' (Str ''SILVER'')]))
     \<longleftrightarrow> 5001 \<le> totalSpent c \<and> totalSpent c \<le> 20000"
  "matches c (buildSegmentQuery rt (Some [tierRule ''='' (Str ''GOLD'')]))
     \<longleftrightarrow> 20001 \<le> totalSpent c \<and> totalSpent c \<le> 50000"
  "matches c (buildSegmentQuery rt (Some [tierRule ''='' (Str ''PREMIUM'')]))
     \<longleftrightarrow> 50001 \<le> totalSpent c"
  by (auto simp add: build_single tier_condition tierRanges_def matchCond_def fieldValue_def)

text \<open>On whole amounts the GOLD rule and the interval (20000, 50000] agree.\<close>

lemma tier_gold_whole_amount:
  assumes "totalSpent c = of_int k"
  shows "matches c (buildSegmentQuery rt (Some [tierRule ''='' (Str ''GOLD'')]))
     \<longleftrightarrow> 20000 < k \<and> k \<le> 50000"
proof -
  have "(20001 \<le> (of_int k :: rat)) = (20001 \<le> k)"
    using of_int_le_iff [of 20001 k, where ?'a = rat] by simp
  moreover have "((of_int k :: rat) \<le> 50000) = (k \<le> 50000)"
    using of_int_le_iff [of k 50000, where ?'a = rat] by simp
  ultimately show ?thesis
    using assms by (auto simp add: tier_matches)
qed

text \<open>
  A tier rule whose operator is not \<open>=\<close>, or whose value names no property of the tier
  table, compiles to the empty condition, which every customer satisfies.
\<close>

lemma tier_rule_empty:
  "op \<noteq> ''='' \<or> tierRanges (toPropertyKey rt v) = Missing
   \<Longrightarrow> ruleCondition rt (tierRule op v) = []"
  by (auto simp add: ruleCondition_def tierRule_def)

lemma empty_condition_matches: "matches c (Cond [])"
  by (simp add: matchCond_def)

text \<open>
  Claim C4, at a customer whose \<open>totalSpent\<close> is 20000.5: the amount lies in
  (20000, 50000] and the customer's tier is GOLD, but the compiled predicate of the rule
  \<open>customerTier = "GOLD"\<close> tests \<open>20001 \<le> totalSpent \<le> 50000\<close> and does not hold.
\<close>

theorem C4_gold_rule_misses_fraction:
  "customerTier ravi = ''GOLD''
   \<and> 20000 < totalSpent ravi \<and> totalSpent ravi \<le> 50000
   \<and> \<not> matches ravi (buildSegmentQuery rt (Some [tierRule ''='' (Str ''GOLD'')]))"
  by (simp add: tier_matches customerTier_def ravi_def)

text \<open>
  Claim C5: a null or empty rule list compiles to the empty condition, which every
  customer satisfies; a single rule compiles to its own condition, unwrapped; two or more
  rules compile to one disjunction of all the rules' conditions when the first rule's
  \<open>logicalOperator\<close> is OR and to one conjunction otherwise (also when it is absent); the
  \<open>logicalOperator\<close> of a later rule has no effect on the query.
\<close>

theorem C5_combination:
  "buildSegmentQuery rt None = Cond []
   \<and> buildSegmentQuery rt (Some []) = Cond []
   \<and> matches c (Cond [])
   \<and> buildSegmentQuery rt (Some [r]) = Cond (ruleCondition rt r)
   \<and> (2 \<le> length rs \<longrightarrow>
        buildSegmentQuery rt (Some rs) =
          (if logicalOperator (hd rs) = Some ''OR'' then QOr (map (ruleCondition rt) rs)
           else QAnd (map (ruleCondition rt) rs))
        \<and> (matches c (buildSegmentQuery rt (Some rs)) \<longleftrightarrow>
             (if logicalOperator (hd rs) = Some ''OR''
              then \<exists>r \<in> set rs. matchCond c (ruleCondition rt r)
              else \<forall>r \<in> set rs. matchCond c (ruleCondition rt r))))
   \<and> buildSegmentQuery rt (Some (r # map (\<lambda>x. x\<lparr>logicalOperator := f x\<rparr>) rs))
        = buildSegmentQuery rt (Some (r # rs))"
proof -
  have cond_upd: "ruleCondition rt (x\<lparr>logicalOperator := y\<rparr>) = ruleCondition rt x" for x y
    by (simp add: ruleCondition_def)
  have hd0: "rs ! 0 = hd rs" if "2 \<le> length rs"
    using that by (cases rs) auto
  have many: "buildSegmentQuery rt (Some rs) =
          (if logicalOperator (hd rs) = Some ''OR'' then QOr (map (ruleCondition rt) rs)
           else QAnd (map (ruleCondition rt) rs))" if "2 \<le> length rs"
    using that hd0 by (auto simp add: buildSegmentQuery_def)
  have sem: "matches c (buildSegmentQuery rt (Some rs)) \<longleftrightarrow>
             (if logicalOperator (hd rs) = Some ''OR''
              then \<exists>r \<in> set rs. matchCond c (ruleCondition rt r)
              else \<forall>r \<in> set rs. matchCond c (ruleCondition rt r))" if "2 \<le> length rs"
    using many [OF that] by (simp add: list_all_iff list_ex_iff)
  have later: "buildSegmentQuery rt (Some (r # map (\<lambda>x. x\<lparr>logicalOperator := f x\<rparr>) rs))
        = buildSegmentQuery rt (Some (r # rs))"
    by (simp add: buildSegmentQuery_def cond_upd Let_def comp_def)
  show ?thesis
    using many sem later by (simp add: buildSegmentQuery_def matchCond_def)
qed

theorem C5_combination_witness:
  "buildSegmentQuery rt0 (Some [spentRule\<lparr>logicalOperator := Some ''OR''\<rparr>, daysRule ''>'' 30])
     = QOr [[(''totalSpent'', Ops [OpGt (Num 10000)])],
            [(''lastVisit'', Ops [OpLt (DateV 1697408000000)])]]
   \<and> matches ravi
        (buildSegmentQuery rt0 (Some [spentRule\<lparr>logicalOperator := Some ''OR''\<rparr>, daysRule ''>'' 30]))
   \<and> \<not> matches ravi (buildSegmentQuery rt0 (Some [spentRule, daysRule ''>'' 30]))"
  using C5_combination [of rt0 ravi _ "[spentRule\<lparr>logicalOperator := Some ''OR''\<rparr>, daysRule ''>'' 30]"]
    C5_combination [of rt0 ravi _ "[spentRule, daysRule ''>'' 30]"]
    daysAgo_cutoff [of rt0 30] daysBack_whole [of rt0 30]
  by (simp add: spentRule_def daysRule_def ruleCondition_def timeClip_def cutoff_def
      wallClock_def rt0_def msPerDay_def dateVal_def matchCond_def fieldValue_def ravi_def)




text \<open>
  Claim C10, at the rule \<open>customerTier = "toString"\<close>: the value is none of the four tier
  labels, yet the lookup in the tier table finds the property inherited from
  \<open>Object.prototype\<close>; the rule compiles to a condition on \<open>totalSpent\<close> with undefined
  bounds, not to the empty condition, and no customer satisfies it.
\<close>

theorem C10_inherited_key_not_empty:
  "buildSegmentQuery rt (Some [tierRule ''='' (Str ''toString'')])
     = Cond [(''totalSpent'', Ops [OpGte Undefined, OpLte Undefined])]
   \<and> \<not> matches c (buildSegmentQuery rt (Some [tierRule ''='' (Str ''toString'')]))"
  by (simp add: build_single tier_condition tierRanges_def objectPrototypeKeys_def
      matchCond_def fieldValue_def)


section \<open>The dispatcher: sends and counters\<close>

lemma settle_log: "fst (settle rt out l st) = fst (settle rt out l st')"
  by (cases out) simp_all

lemma settle_status:
  "status (fst (settle rt out l st)) = (if out = Accepted then Some ''SENT'' else Some ''FAILED'')"
  by (cases out) simp_all

lemma settle_keeps:
  "vendorMessageId (fst (settle rt out l st)) = vendorMessageId l"
  "campaignId (fst (settle rt out l st)) = campaignId l"
  "customerId (fst (settle rt out l st)) = customerId l"
  "message (fst (settle rt out l st)) = message l"
  "deliveredAt (fst (settle rt out l st)) = deliveredAt l"
  by (cases out; simp)+

lemma settle_stats:
  "snd (settle rt out l st) =
     (if out = Accepted then st\<lparr>sent := sent st + 1\<rparr> else st\<lparr>failed := failed st + 1\<rparr>)"
  by (cases out) simp_all

lemma settleAll_logs: "fst (settleAll rt v ls st) = map (settledLog rt v) ls"
proof (induction ls arbitrary: st)
  case Nil
  show ?case by simp
next
  case (Cons l ls)
  have "fst (settle rt (sendMessage v l) l st) = settledLog rt v l"
    unfolding settledLog_def by (rule settle_log)
  with Cons.IH show ?case
    by (simp add: split_beta)
qed

lemma settleAll_stats:
  "snd (settleAll rt v ls st) =
     st\<lparr>sent := sent st + length (filter (accepted v) ls),
        failed := failed st + length (filter (\<lambda>l. \<not> accepted v l) ls)\<rparr>"
proof (induction ls arbitrary: st)
  case Nil
  show ?case by simp
next
  case (Cons l ls)
  show ?case
    by (simp add: split_beta Cons.IH settle_stats accepted_def)
qed

lemma settledLog_status:
  "status (settledLog rt v l) = (if accepted v l then Some ''SENT'' else Some ''FAILED'')"
  by (simp add: settledLog_def settle_status accepted_def)

lemma settledLog_keeps:
  "vendorMessageId (settledLog rt v l) = vendorMessageId l"
  "campaignId (settledLog rt v l) = campaignId l"
  "customerId (settledLog rt v l) = customerId l"
  "message (settledLog rt v l) = message l"
  "deliveredAt (settledLog rt v l) = deliveredAt l"
  by (simp_all add: settledLog_def settle_keeps)

lemma launch_ok:
  assumes seg: "segments d (inSegmentId value) = Some sg"
    and aud: "audience rt sg d \<noteq> []"
    and fresh: "campaigns d newId = None"
  shows "launch rt v newId user (Inr value) d =
     ((201, Launched (completed rt v user value (pendingLogs rt newId (inMessage value) (audience rt sg d)))),
      d\<lparr>campaigns := (campaigns d)(newId \<mapsto>
            completed rt v user value (pendingLogs rt newId (inMessage value) (audience rt sg d))),
        logs := logs d @ map (settledLog rt v) (pendingLogs rt newId (inMessage value) (audience rt sg d))\<rparr>)"
proof -
  let ?p = "pendingLogs rt newId (inMessage value) (audience rt sg d)"
  have sa: "settleAll rt v ?p zeroStats =
      (map (settledLog rt v) ?p,
       zeroStats\<lparr>sent := sent zeroStats + length (filter (accepted v) ?p),
        failed := failed zeroStats + length (filter (\<lambda>l. \<not> accepted v l) ?p)\<rparr>)"
    using settleAll_logs [of rt v ?p zeroStats] settleAll_stats [of rt v ?p zeroStats]
    by (simp add: prod_eq_iff)
  have len: "length ?p = length (audience rt sg d)"
    by (simp add: pendingLogs_def)
  show ?thesis
    using seg aud fresh
    by (simp add: launch_def Let_def audience_def [symmetric] sa [unfolded zeroStats_def]
        completed_def len zeroStats_def)
qed

section \<open>The dispatcher: vendor message ids\<close>

lemma mkVendorMessageId_inj:
  assumes "mkVendorMessageId c k1 t1 = mkVendorMessageId c k2 t2" and "length k1 = length k2"
  shows "k1 = k2"
proof -
  from assms(1) have "k1 @ (''_'' @ showInt t1) = k2 @ (''_'' @ showInt t2)"
    by (simp add: mkVendorMessageId_def)
  with assms(2) show ?thesis
    by simp
qed

lemma mkVendorMessageId_take:
  assumes "length c = 24"
  shows "take 28 (mkVendorMessageId c k t) = ''msg_'' @ c"
  using assms by (simp add: mkVendorMessageId_def)

lemma pendingLogs_fields:
  "l \<in> set (pendingLogs rt newId tpl custs) \<Longrightarrow>
     status l = Some ''PENDING'' \<and> campaignId l = newId \<and> sentAt l = None
     \<and> deliveredAt l = None \<and> failureReason l = None"
  by (auto simp add: pendingLogs_def newLog_def)

lemma pendingLogs_customers:
  "map customerId (pendingLogs rt newId tpl custs) = map custId custs"
  by (simp add: pendingLogs_def newLog_def comp_def)

lemma pendingLogs_ids:
  "map vendorMessageId (pendingLogs rt newId tpl custs)
     = map (\<lambda>c. mkVendorMessageId newId (custId c) (now rt)) custs"
  by (simp add: pendingLogs_def newLog_def comp_def)

lemma pendingLogs_distinct:
  assumes "distinct (map custId custs)" and "\<forall>c \<in> set custs. length (custId c) = 24"
  shows "distinct (map vendorMessageId (pendingLogs rt newId tpl custs))"
proof -
  have "inj_on (\<lambda>c. mkVendorMessageId newId (custId c) (now rt)) (set custs)"
  proof (rule inj_onI)
    fix x y
    assume x: "x \<in> set custs" and y: "y \<in> set custs"
      and e: "mkVendorMessageId newId (custId x) (now rt) = mkVendorMessageId newId (custId y) (now rt)"
    from x y assms(2) have "length (custId x) = length (custId y)" by simp
    with e have "custId x = custId y" by (rule mkVendorMessageId_inj)
    with assms(1) x y show "x = y"
      by (simp add: distinct_map inj_on_def)
  qed
  moreover from assms(1) have "distinct custs" by (simp add: distinct_map)
  ultimately show ?thesis
    by (simp add: pendingLogs_ids distinct_map)
qed

lemma audience_sub:
  "set (audience rt sg d) \<subseteq> set (customers d)"
  "distinct (map custId (customers d)) \<Longrightarrow> distinct (map custId (audience rt sg d))"
  by (auto simp add: audience_def findCustomers_def distinct_map_filter)

lemma pendingLogs_fresh:
  assumes wf: "wfdb d" and fresh: "campaigns d newId = None" and len: "length newId = 24"
    and l: "l \<in> set (logs d)" and p: "p \<in> set (pendingLogs rt newId tpl custs)"
  shows "vendorMessageId l \<noteq> vendorMessageId p"
proof
  assume e: "vendorMessageId l = vendorMessageId p"
  from p obtain c :: customer
    where "vendorMessageId p = mkVendorMessageId newId (custId c) (now rt)"
    by (auto simp add: pendingLogs_def newLog_def)
  with len have "take 28 (vendorMessageId p) = ''msg_'' @ newId"
    by (simp add: mkVendorMessageId_take)
  moreover from wf l have "take 28 (vendorMessageId l) = ''msg_'' @ campaignId l"
    and ex: "campaigns d (campaignId l) \<noteq> None"
    by (auto simp add: wfdb_def)
  ultimately have "campaignId l = newId" using e by simp
  with ex fresh show False by simp
qed

lemma launch_distinct:
  assumes wf: "wfdb d" and fresh: "campaigns d newId = None" and len: "length newId = 24"
  shows "distinct (map vendorMessageId (logs d @ pendingLogs rt newId tpl (audience rt sg d)))"
proof -
  have "distinct (map custId (audience rt sg d))"
    using wf by (simp add: wfdb_def audience_sub(2))
  moreover have "\<forall>c \<in> set (audience rt sg d). length (custId c) = 24"
    using wf audience_sub(1) [of rt sg d] by (auto simp add: wfdb_def)
  ultimately have "distinct (map vendorMessageId (pendingLogs rt newId tpl (audience rt sg d)))"
    by (rule pendingLogs_distinct)
  moreover have "distinct (map vendorMessageId (logs d))"
    using wf by (simp add: wfdb_def)
  moreover have "vendorMessageId ` set (logs d)
      \<inter> vendorMessageId ` set (pendingLogs rt newId tpl (audience rt sg d)) = {}"
    using pendingLogs_fresh [OF wf fresh len] by blast
  ultimately show ?thesis by simp
qed

section \<open>Receipts and the invariant\<close>

lemma findOne_None: "findOne vid ls = None \<longleftrightarrow> vid \<notin> vendorMessageId ` set ls"
  by (induction ls) auto

lemma findOne_Some:
  "findOne vid ls = Some i \<Longrightarrow> i < length ls \<and> vendorMessageId (ls ! i) = vid"
  by (induction ls arbitrary: i) (auto split: if_splits)

lemma findOne_distinct:
  "\<lbrakk>distinct (map vendorMessageId ls); i < length ls\<rbrakk>
   \<Longrightarrow> findOne (vendorMessageId (ls ! i)) ls = Some i"
proof (induction ls arbitrary: i)
  case Nil
  then show ?case by simp
next
  case (Cons l ls)
  show ?case
  proof (cases i)
    case 0
    then show ?thesis by simp
  next
    case (Suc j)
    with Cons.prems have j: "j < length ls" by simp
    then have "vendorMessageId (ls ! j) \<in> set (map vendorMessageId ls)" by simp
    moreover from Cons.prems have "vendorMessageId l \<notin> set (map vendorMessageId ls)" by simp
    ultimately have "vendorMessageId (ls ! j) \<noteq> vendorMessageId l" by metis
    with Cons j Suc show ?thesis by simp
  qed
qed

lemma receive_keeps:
  "vendorMessageId (receive r l) = vendorMessageId l"
  "campaignId (receive r l) = campaignId l"
  "customerId (receive r l) = customerId l"
  by (simp_all add: receive_def split: option.splits dateField.splits)

lemma receive_status:
  "castStatus (rStatus r) = Some st \<Longrightarrow> status (receive r l) = st"
  by (simp add: receive_def split: dateField.splits)

lemma ingest_unknown:
  "findOne (rVendorMessageId r) (logs d) = None
   \<Longrightarrow> ingest r d = ((404, ErrorBody ''Communication log not found''), d)"
  by (simp add: ingest_def)

lemma ingest_invalid:
  "castStatus (rStatus r) = None \<or> rDeliveredAt r = BadDate \<Longrightarrow> snd (ingest r d) = d"
  by (auto simp add: ingest_def Let_def split: option.splits)

lemma ingest_found:
  assumes "findOne (rVendorMessageId r) (logs d) = Some i"
    and "castStatus (rStatus r) = Some st"
    and "rDeliveredAt r \<noteq> BadDate"
  shows "ingest r d =
     ((200, Message ''Delivery receipt processed''),
      d\<lparr>logs := (logs d)[i := receive r (logs d ! i)],
        campaigns :=
          (case campaigns d (campaignId (logs d ! i)) of
             None \<Rightarrow> campaigns d
           | Some c \<Rightarrow>
               if rStatus r = StatusText ''DELIVERED''
               then (campaigns d)(campaignId (logs d ! i) \<mapsto> countDelivered c)
               else campaigns d)\<rparr>)"
  using assms
  by (cases "rDeliveredAt r")
    (auto simp add: ingest_def Let_def receive_def countDelivered_def split: option.splits)

lemma ingest_logs_length: "length (logs (snd (ingest r d))) = length (logs d)"
  by (auto simp add: ingest_def Let_def split: option.splits)

lemma map_update_same:
  assumes "f y = f (xs ! i)"
  shows "map f (xs[i := y]) = map f xs"
proof (cases "i < length xs")
  case True
  with assms show ?thesis
    by (auto simp add: list_eq_iff_nth_eq nth_list_update)
next
  case False
  then have "length xs \<le> i" by simp
  then show ?thesis by (simp add: list_update_beyond)
qed

lemma wfdb_logs_pairs:
  "(\<forall>l \<in> set ls. P (campaignId l) (vendorMessageId l))
   \<longleftrightarrow> (\<forall>p \<in> set (map (\<lambda>l. (campaignId l, vendorMessageId l)) ls). P (fst p) (snd p))"
  by auto

lemma wfdb_step:
  assumes wf: "wfdb d"
    and cs: "customers d' = customers d"
    and ls: "map (\<lambda>l. (campaignId l, vendorMessageId l)) (logs d')
           = map (\<lambda>l. (campaignId l, vendorMessageId l)) (logs d)"
    and dom: "\<And>k. campaigns d k \<noteq> None \<Longrightarrow> campaigns d' k \<noteq> None"
  shows "wfdb d'"
proof -
  let ?P = "\<lambda>e c v. length c = 24 \<and> campaigns e c \<noteq> None \<and> take 28 v = ''msg_'' @ c"
  from wf have "\<forall>l \<in> set (logs d). ?P d (campaignId l) (vendorMessageId l)"
    by (simp add: wfdb_def)
  then have "\<forall>p \<in> set (map (\<lambda>l. (campaignId l, vendorMessageId l)) (logs d)). ?P d (fst p) (snd p)"
    by (simp only: wfdb_logs_pairs [of "logs d" "?P d"])
  with dom have "\<forall>p \<in> set (map (\<lambda>l. (campaignId l, vendorMessageId l)) (logs d')). ?P d' (fst p) (snd p)"
    unfolding ls by blast
  then have logs_ok: "\<forall>l \<in> set (logs d'). ?P d' (campaignId l) (vendorMessageId l)"
    by (simp only: wfdb_logs_pairs [of "logs d'" "?P d'"])
  have "map vendorMessageId (logs d') = map snd (map (\<lambda>l. (campaignId l, vendorMessageId l)) (logs d'))"
    by (simp add: comp_def)
  also have "\<dots> = map vendorMessageId (logs d)"
    unfolding ls by (simp add: comp_def)
  finally have ids: "map vendorMessageId (logs d') = map vendorMessageId (logs d)" .
  from wf have "distinct (map vendorMessageId (logs d))"
    and "\<forall>c \<in> set (customers d). length (custId c) = 24"
    and "distinct (map custId (customers d))"
    by (simp_all add: wfdb_def)
  with logs_ok ids cs show ?thesis
    unfolding wfdb_def by simp
qed

lemma wfdb_ingest:
  assumes "wfdb d"
  shows "wfdb (snd (ingest r d))"
proof (cases "findOne (rVendorMessageId r) (logs d)")
  case None
  with assms show ?thesis by (simp add: ingest_unknown)
next
  case (Some i)
  show ?thesis
  proof (cases "castStatus (rStatus r) = None \<or> rDeliveredAt r = BadDate")
    case True
    with assms show ?thesis by (simp add: ingest_invalid)
  next
    case False
    then obtain st where st: "castStatus (rStatus r) = Some st"
      and nb: "rDeliveredAt r \<noteq> BadDate"
      by auto
    from Some have i: "i < length (logs d)" by (simp add: findOne_Some)
    let ?d = "snd (ingest r d)"
    have "customers ?d = customers d"
      by (simp add: ingest_found [OF Some st nb])
    moreover have "map (\<lambda>l. (campaignId l, vendorMessageId l)) (logs ?d)
          = map (\<lambda>l. (campaignId l, vendorMessageId l)) (logs d)"
      by (simp add: ingest_found [OF Some st nb] map_update_same receive_keeps)
    moreover have "campaigns d k \<noteq> None \<Longrightarrow> campaigns ?d k \<noteq> None" for k
      by (simp add: ingest_found [OF Some st nb] split: option.splits)
    ultimately show ?thesis
      by (rule wfdb_step [OF assms])
  qed
qed

lemma wfdb_launch:
  assumes wf: "wfdb d" and len: "length newId = 24"
  shows "wfdb (snd (launch rt v newId user validated d))"
proof (cases validated)
  case (Inl details)
  with wf show ?thesis by (simp add: launch_def)
next
  case (Inr inp)
  show ?thesis
  proof (cases "segments d (inSegmentId inp)")
    case None
    with wf Inr show ?thesis by (simp add: launch_def)
  next
    case (Some sg)
    show ?thesis
    proof (cases "audience rt sg d = [] \<or> campaigns d newId \<noteq> None")
      case True
      with wf Inr Some show ?thesis
        by (auto simp add: launch_def Let_def audience_def)
    next
      case False
      then have aud: "audience rt sg d \<noteq> []" and fresh: "campaigns d newId = None" by auto
      let ?p = "pendingLogs rt newId (inMessage inp) (audience rt sg d)"
      let ?d = "snd (launch rt v newId user (Inr inp) d)"
      have lg: "logs ?d = logs d @ map (settledLog rt v) ?p"
        and cp: "campaigns ?d = (campaigns d)(newId \<mapsto> completed rt v user inp ?p)"
        and cu: "customers ?d = customers d"
        by (simp_all add: launch_ok [OF Some aud fresh])
      have ids: "map vendorMessageId (logs ?d) = map vendorMessageId (logs d @ ?p)"
        by (simp add: lg settledLog_keeps comp_def)
      have dist: "distinct (map vendorMessageId (logs ?d))"
        unfolding ids using wf fresh len by (rule launch_distinct)
      have old: "length (campaignId l) = 24 \<and> campaigns ?d (campaignId l) \<noteq> None
          \<and> take 28 (vendorMessageId l) = ''msg_'' @ campaignId l"
        if "l \<in> set (logs d)" for l
        using that wf by (simp add: wfdb_def cp)
      have new: "length (campaignId l) = 24 \<and> campaigns ?d (campaignId l) \<noteq> None
          \<and> take 28 (vendorMessageId l) = ''msg_'' @ campaignId l"
        if "l \<in> set (map (settledLog rt v) ?p)" for l
      proof -
        from that obtain c :: customer where "l = settledLog rt v (newLog rt newId (inMessage inp) c)"
          by (auto simp add: pendingLogs_def)
        then have "campaignId l = newId"
          and "vendorMessageId l = mkVendorMessageId newId (custId c) (now rt)"
          by (simp_all add: settledLog_keeps newLog_def)
        with len show ?thesis
          by (simp add: cp mkVendorMessageId_take)
      qed
      have all: "\<forall>l \<in> set (logs ?d).
            length (campaignId l) = 24 \<and> campaigns ?d (campaignId l) \<noteq> None
            \<and> take 28 (vendorMessageId l) = ''msg_'' @ campaignId l"
        unfolding lg using old new by (simp only: set_append Un_iff) blast
      from wf have "\<forall>c \<in> set (customers d). length (custId c) = 24"
        and "distinct (map custId (customers d))"
        by (simp_all add: wfdb_def)
      with all dist cu show ?thesis
        unfolding Inr wfdb_def by simp
    qed
  qed
qed

lemma reachable_wfdb: "reachable d \<Longrightarrow> wfdb d"
proof (induction rule: reachable.induct)
  case (start cs sg)
  then show ?case by (simp add: wfdb_def)
next
  case (launched d newId rt v user validated)
  then show ?case by (simp add: wfdb_launch)
next
  case (ingested d r)
  then show ?case by (simp add: wfdb_ingest)
next
  case (other_routes d cs sg)
  then show ?case by (simp add: wfdb_def)
qed

section \<open>An example run\<close>

text \<open>
  One launch over the two example customers, once with a vendor that accepts every send
  (\<open>db1\<close>) and once with a vendor that rejects every send (\<open>db2\<close>).
\<close>

lemma audience_db0: "audience rt0 spenders db0 = [asha, ravi]"
  by code_simp

lemma logs_db1:
  "logs db1 =
     [\<lparr>campaignId = camp0, customerId = custId asha, message = ''Hi Asha, enjoy 20% off!'',
       status = Some ''SENT'', sentAt = Some 1700000000000, deliveredAt = None,
       failureReason = None, vendorMessageId = ashaMessageId\<rparr>,
      \<lparr>campaignId = camp0, customerId = custId ravi, message = ''Hi Ravi, enjoy 20% off!'',
       status = Some ''SENT'', sentAt = Some 1700000000000, deliveredAt = None,
       failureReason = None,
       vendorMessageId = ''msg_64b7f0c2a1d3e4f5a6b7c100_64b7f0c2a1d3e4f5a6b7c8da_1700000000000''\<rparr>]"
  by code_simp

text \<open>The two scenarios of the specification.\<close>

lemma scenario_audience_size:
  "countDocuments (buildSegmentQuery rt0 (Some [spentRule]))
     [asha\<lparr>totalSpent := 15000\<rparr>, asha\<lparr>totalSpent := 5000\<rparr>] = 1"
  by code_simp

lemma scenario_personalize:
  "personalize ''Hi {name}, enjoy 20% off!'' ''Asha'' = ''Hi Asha, enjoy 20% off!''"
  by code_simp

lemma reachable_db0: "reachable db0"
  unfolding db0_def by (rule reachable.start) (simp_all add: asha_def ravi_def)

lemma reachable_db1: "reachable db1"
  unfolding db1_def by (rule reachable.launched [OF reachable_db0]) (simp add: camp0_def)

lemma reachable_db2: "reachable db2"
  unfolding db2_def by (rule reachable.launched [OF reachable_db0]) (simp add: camp0_def)

lemma launch_db0:
  "segments db0 (inSegmentId input0) = Some spenders"
  "campaigns db0 camp0 = None"
  "length camp0 = 24"
  by (simp_all add: db0_def input0_def camp0_def)

lemma launch_db0_audience: "audience rt0 spenders db0 \<noteq> []"
  by (simp add: audience_db0)

lemma run_db1:
  "launch rt0 acceptAll camp0 user0 (Inr input0) db0
     = (fst (launch rt0 acceptAll camp0 user0 (Inr input0) db0), db1)"
  by (simp add: db1_def)

lemma run_db2:
  "launch rt0 rejectAll camp0 user0 (Inr input0) db0
     = (fst (launch rt0 rejectAll camp0 user0 (Inr input0) db0), db2)"
  by (simp add: db2_def)

section \<open>Claims about the dispatcher and the reconciler\<close>

lemma accepted_fun: "accepted v = (\<lambda>l. sendMessage v l = Accepted)"
  by (simp add: fun_eq_iff accepted_def)

lemma settledLog_reset:
  assumes "status l = Some ''PENDING''" and "sentAt l = None" and "failureReason l = None"
  shows "(settledLog rt v l)\<lparr>status := Some ''PENDING'', sentAt := None, failureReason := None\<rparr> = l"
  using assms by (cases "sendMessage v l") (simp_all add: settledLog_def)

text \<open>
  Claim C1, as the code has it: in every reachable state, for every log, a DELIVERED
  receipt for the log's \<open>vendorMessageId\<close> (its \<open>deliveredAt\<close> absent or a date, as the
  vendor sends it) is answered with 200, sets that log's status
  to DELIVERED, leaves every other log as it was, and adds one to \<open>stats.delivered\<close> of
  the log's campaign and of no other campaign. The handler has no guard on the log's
  current status: the same receipt ingested a second time adds one again, so after two
  ingestions the counter is two above its first value.
\<close>

theorem C1_delivered_receipt:
  assumes reach: "reachable d" and i: "i < length (logs d)"
    and r: "r = \<lparr>rVendorMessageId = vendorMessageId (logs d ! i),
                 rStatus = StatusText ''DELIVERED'', rDeliveredAt = t\<rparr>"
    and t: "t \<noteq> BadDate"
  shows "\<exists>c. campaigns d (campaignId (logs d ! i)) = Some c
      \<and> fst (ingest r d) = (200, Message ''Delivery receipt processed'')
      \<and> logs (snd (ingest r d)) = (logs d)[i := receive r (logs d ! i)]
      \<and> status (logs (snd (ingest r d)) ! i) = Some ''DELIVERED''
      \<and> campaigns (snd (ingest r d)) =
          (campaigns d)(campaignId (logs d ! i) \<mapsto>
             c\<lparr>stats := (stats c)\<lparr>delivered := delivered (stats c) + 1\<rparr>\<rparr>)
      \<and> campaigns (snd (ingest r (snd (ingest r d)))) =
          (campaigns d)(campaignId (logs d ! i) \<mapsto>
             c\<lparr>stats := (stats c)\<lparr>delivered := delivered (stats c) + 2\<rparr>\<rparr>)"
proof -
  let ?l = "logs d ! i"
  let ?d1 = "snd (ingest r d)"
  from reach have wf: "wfdb d" by (rule reachable_wfdb)
  then have dist: "distinct (map vendorMessageId (logs d))"
    by (simp add: wfdb_def)
  from i have "?l \<in> set (logs d)" by simp
  with wf obtain c where c: "campaigns d (campaignId ?l) = Some c"
    by (auto simp add: wfdb_def)
  have enum: "castStatus (rStatus r) = Some (Some ''DELIVERED'')"
    by (simp add: r castStatus_def logStatusEnum_def)
  have nb: "rDeliveredAt r \<noteq> BadDate"
    using t by (simp add: r)
  have f: "findOne (rVendorMessageId r) (logs d) = Some i"
    using findOne_distinct [OF dist i] by (simp add: r)
  have st: "rStatus r = StatusText ''DELIVERED''" by (simp add: r)
  have one: "ingest r d = ((200, Message ''Delivery receipt processed''),
      d\<lparr>logs := (logs d)[i := receive r ?l],
        campaigns := (campaigns d)(campaignId ?l \<mapsto> countDelivered c)\<rparr>)"
    by (simp add: ingest_found [OF f enum nb] c st)
  have lg1: "logs ?d1 = (logs d)[i := receive r ?l]"
    and cp1: "campaigns ?d1 = (campaigns d)(campaignId ?l \<mapsto> countDelivered c)"
    by (simp_all add: one)
  have i1: "i < length (logs ?d1)" using i by (simp add: lg1)
  have l1: "logs ?d1 ! i = receive r ?l" using i by (simp add: lg1)
  have "map vendorMessageId (logs ?d1) = map vendorMessageId (logs d)"
    by (simp add: lg1 map_update_same receive_keeps)
  with dist have dist1: "distinct (map vendorMessageId (logs ?d1))" by simp
  have "vendorMessageId (logs ?d1 ! i) = vendorMessageId ?l"
    by (simp add: l1 receive_keeps)
  also have "\<dots> = rVendorMessageId r" by (simp add: r)
  finally have "vendorMessageId (logs ?d1 ! i) = rVendorMessageId r" .
  with findOne_distinct [OF dist1 i1]
  have f1: "findOne (rVendorMessageId r) (logs ?d1) = Some i"
    by (simp only:)
  have c1: "campaigns ?d1 (campaignId (logs ?d1 ! i)) = Some (countDelivered c)"
    by (simp add: l1 receive_keeps cp1)
  have two: "campaigns (snd (ingest r ?d1)) =
      (campaigns d)(campaignId ?l \<mapsto> countDelivered (countDelivered c))"
    by (simp add: ingest_found [OF f1 enum nb] c1 st) (simp add: l1 receive_keeps cp1)
  have "status (logs ?d1 ! i) = Some ''DELIVERED''"
    by (simp add: l1 receive_status [OF enum])
  moreover have "fst (ingest r d) = (200, Message ''Delivery receipt processed'')"
    by (simp add: one)
  moreover have "countDelivered c = c\<lparr>stats := (stats c)\<lparr>delivered := delivered (stats c) + 1\<rparr>\<rparr>"
    and "countDelivered (countDelivered c)
          = c\<lparr>stats := (stats c)\<lparr>delivered := delivered (stats c) + 2\<rparr>\<rparr>"
    by (simp_all add: countDelivered_def)
  ultimately show ?thesis
    using c lg1 cp1 two by simp
qed

theorem C1_delivered_receipt_witness:
  "status (logs (snd (ingest deliveredReceipt db1)) ! 0) = Some ''DELIVERED''
   \<and> (\<exists>c. campaigns db1 camp0 = Some c
        \<and> campaigns (snd (ingest deliveredReceipt db1)) camp0
            = Some (c\<lparr>stats := (stats c)\<lparr>delivered := delivered (stats c) + 1\<rparr>\<rparr>)
        \<and> campaigns (snd (ingest deliveredReceipt (snd (ingest deliveredReceipt db1)))) camp0
            = Some (c\<lparr>stats := (stats c)\<lparr>delivered := delivered (stats c) + 2\<rparr>\<rparr>))"
  using C1_delivered_receipt [OF reachable_db1, of 0 deliveredReceipt "DateAt 1700000003000"]
  by (auto simp add: logs_db1 deliveredReceipt_def)

text \<open>
  Claim C1 as stated fails on the repeated receipt: after the example launch the first
  log is SENT and the campaign has counted no delivery; the DELIVERED receipt for that
  log brings \<open>stats.delivered\<close> to 1 and the same receipt once more brings it to 2.
\<close>

theorem C1_receipt_counted_twice:
  "status (logs db1 ! 0) = Some ''SENT''
   \<and> vendorMessageId (logs db1 ! 0) = rVendorMessageId deliveredReceipt
   \<and> rStatus deliveredReceipt = StatusText ''DELIVERED''
   \<and> map_option (delivered \<circ> stats) (campaigns db1 camp0) = Some 0
   \<and> map_option (delivered \<circ> stats) (campaigns (snd (ingest deliveredReceipt db1)) camp0) = Some 1
   \<and> map_option (delivered \<circ> stats)
        (campaigns (snd (ingest deliveredReceipt (snd (ingest deliveredReceipt db1)))) camp0) = Some 2"
  by code_simp




text \<open>
  Claim C3: a launch that passes the dispatcher's checks (the segment exists, its
  audience of size N is not empty, the new campaign id is unused) answers 201 and saves
  a campaign whose \<open>audienceSize\<close> is N and whose \<open>stats.sent + stats.failed\<close> is N:
  \<open>stats.sent\<close> counts the sends the vendor accepted, \<open>stats.failed\<close> the sends it
  refused or that threw, and each new log is SENT or FAILED by the outcome of its own
  send alone.
\<close>

theorem C3_sent_plus_failed:
  assumes seg: "segments d (inSegmentId inp) = Some sg"
    and aud: "audience rt sg d \<noteq> []"
    and fresh: "campaigns d newId = None"
    and run: "launch rt v newId user (Inr inp) d = (resp, d')"
  shows "\<exists>c. resp = (201, Launched c) \<and> campaigns d' newId = Some c
      \<and> audienceSize c = length (audience rt sg d)
      \<and> sent (stats c) + failed (stats c) = length (audience rt sg d)
      \<and> sent (stats c) = length (filter (\<lambda>l. sendMessage v l = Accepted)
            (pendingLogs rt newId (inMessage inp) (audience rt sg d)))
      \<and> failed (stats c) = length (filter (\<lambda>l. sendMessage v l \<noteq> Accepted)
            (pendingLogs rt newId (inMessage inp) (audience rt sg d)))
      \<and> map status (drop (length (logs d)) (logs d'))
          = map (\<lambda>l. if sendMessage v l = Accepted then Some ''SENT'' else Some ''FAILED'')
              (pendingLogs rt newId (inMessage inp) (audience rt sg d))"
proof -
  let ?p = "pendingLogs rt newId (inMessage inp) (audience rt sg d)"
  let ?c = "completed rt v user inp ?p"
  have len: "length ?p = length (audience rt sg d)"
    by (simp add: pendingLogs_def)
  have r: "resp = (201, Launched ?c)"
    and d': "d' = d\<lparr>campaigns := (campaigns d)(newId \<mapsto> ?c),
                 logs := logs d @ map (settledLog rt v) ?p\<rparr>"
    using run launch_ok [OF seg aud fresh, of v user] by simp_all
  have sum: "sent (stats ?c) + failed (stats ?c) = length (audience rt sg d)"
    using sum_length_filter_compl [of "accepted v" ?p] by (simp add: completed_def len)
  have st: "map status (map (settledLog rt v) ?p)
      = map (\<lambda>l. if sendMessage v l = Accepted then Some ''SENT'' else Some ''FAILED'') ?p"
    by (simp add: settledLog_status accepted_def comp_def)
  have "campaigns d' newId = Some ?c" by (simp add: d')
  moreover have "audienceSize ?c = length (audience rt sg d)"
    by (simp add: completed_def len)
  moreover have "sent (stats ?c) = length (filter (\<lambda>l. sendMessage v l = Accepted) ?p)"
    and "failed (stats ?c) = length (filter (\<lambda>l. sendMessage v l \<noteq> Accepted) ?p)"
    by (simp_all add: completed_def accepted_fun)
  moreover have "map status (drop (length (logs d)) (logs d'))
      = map (\<lambda>l. if sendMessage v l = Accepted then Some ''SENT'' else Some ''FAILED'') ?p"
    using st by (simp add: d')
  ultimately show ?thesis
    using r sum by blast
qed

theorem C3_sent_plus_failed_witness:
  "\<exists>c. campaigns db1 camp0 = Some c \<and> sent (stats c) + failed (stats c) = 2
       \<and> sent (stats c) = 2 \<and> audienceSize c = 2"
  using C3_sent_plus_failed [OF launch_db0(1) launch_db0_audience launch_db0(2) run_db1]
  by (auto simp add: audience_db0 pendingLogs_def sendMessage_def acceptAll_def)

text \<open>
  Claim C7: in a reachable state, a launch over an audience of N customers with a new
  campaign id creates N logs, the i-th for the i-th customer of the audience and with
  status PENDING; their \<open>vendorMessageId\<close>s differ from each other and from those of all
  earlier logs. When the launch has returned, the earlier logs are unchanged, the N new
  logs are the created ones up to the fields a settled send writes, and looking up the
  \<open>vendorMessageId\<close> of any log finds exactly that log.
\<close>

theorem C7_logs_created:
  assumes reach: "reachable d"
    and seg: "segments d (inSegmentId inp) = Some sg"
    and aud: "audience rt sg d \<noteq> []"
    and fresh: "campaigns d newId = None"
    and len: "length newId = 24"
    and run: "launch rt v newId user (Inr inp) d = (resp, d')"
  shows "length (pendingLogs rt newId (inMessage inp) (audience rt sg d))
           = length (audience rt sg d)
      \<and> map customerId (pendingLogs rt newId (inMessage inp) (audience rt sg d))
           = map custId (audience rt sg d)
      \<and> map status (pendingLogs rt newId (inMessage inp) (audience rt sg d))
           = replicate (length (audience rt sg d)) (Some ''PENDING'')
      \<and> distinct (map vendorMessageId
           (logs d @ pendingLogs rt newId (inMessage inp) (audience rt sg d)))
      \<and> take (length (logs d)) (logs d') = logs d
      \<and> map (\<lambda>l. l\<lparr>status := Some ''PENDING'', sentAt := None, failureReason := None\<rparr>)
             (drop (length (logs d)) (logs d'))
           = pendingLogs rt newId (inMessage inp) (audience rt sg d)
      \<and> length (logs d') = length (logs d) + length (audience rt sg d)
      \<and> distinct (map vendorMessageId (logs d'))
      \<and> (\<forall>i < length (logs d'). findOne (vendorMessageId (logs d' ! i)) (logs d') = Some i)"
proof -
  let ?p = "pendingLogs rt newId (inMessage inp) (audience rt sg d)"
  from reach have wf: "wfdb d" by (rule reachable_wfdb)
  have d': "d' = d\<lparr>campaigns := (campaigns d)(newId \<mapsto> completed rt v user inp ?p),
                 logs := logs d @ map (settledLog rt v) ?p\<rparr>"
    using run launch_ok [OF seg aud fresh, of v user] by simp
  have n: "length ?p = length (audience rt sg d)"
    by (simp add: pendingLogs_def)
  have st: "map status ?p = replicate (length (audience rt sg d)) (Some ''PENDING'')"
    by (simp add: pendingLogs_def newLog_def comp_def map_replicate_const)
  have dist: "distinct (map vendorMessageId (logs d @ ?p))"
    using wf fresh len by (rule launch_distinct)
  have ids: "map vendorMessageId (logs d') = map vendorMessageId (logs d @ ?p)"
    by (simp add: d' settledLog_keeps comp_def)
  have "map (\<lambda>l. (settledLog rt v l)\<lparr>status := Some ''PENDING'', sentAt := None,
               failureReason := None\<rparr>) ?p = ?p"
    by (rule map_idI) (simp add: pendingLogs_fields settledLog_reset)
  then have undo: "map (\<lambda>l. l\<lparr>status := Some ''PENDING'', sentAt := None, failureReason := None\<rparr>)
             (map (settledLog rt v) ?p) = ?p"
    by (simp add: comp_def)
  have dist': "distinct (map vendorMessageId (logs d'))"
    using dist by (simp only: ids)
  have one: "\<forall>i < length (logs d'). findOne (vendorMessageId (logs d' ! i)) (logs d') = Some i"
    using dist' by (simp add: findOne_distinct)
  have "take (length (logs d)) (logs d') = logs d" by (simp add: d')
  moreover have "map (\<lambda>l. l\<lparr>status := Some ''PENDING'', sentAt := None, failureReason := None\<rparr>)
             (drop (length (logs d)) (logs d')) = ?p"
    using undo by (simp add: d')
  moreover have "length (logs d') = length (logs d) + length (audience rt sg d)"
    by (simp add: d' n)
  ultimately show ?thesis
    using n st dist dist' one pendingLogs_customers [of rt newId "inMessage inp" "audience rt sg d"]
    by blast
qed

theorem C7_logs_created_witness:
  "map status (pendingLogs rt0 camp0 (inMessage input0) (audience rt0 spenders db0))
     = [Some ''PENDING'', Some ''PENDING'']
   \<and> map customerId (pendingLogs rt0 camp0 (inMessage input0) (audience rt0 spenders db0))
     = [custId asha, custId ravi]
   \<and> length (logs db1) = 2
   \<and> distinct (map vendorMessageId (logs db1))"
proof -
  note created = C7_logs_created [OF reachable_db0 launch_db0(1) launch_db0_audience
      launch_db0(2) launch_db0(3) run_db1]
  from created
  have "map status (pendingLogs rt0 camp0 (inMessage input0) (audience rt0 spenders db0))
      = replicate (length (audience rt0 spenders db0)) (Some ''PENDING'')"
    and "map customerId (pendingLogs rt0 camp0 (inMessage input0) (audience rt0 spenders db0))
      = map custId (audience rt0 spenders db0)"
    and "length (logs db1) = length (logs db0) + length (audience rt0 spenders db0)"
    and "distinct (map vendorMessageId (logs db1))"
    by blast+
  moreover have "logs db0 = []" by (simp add: db0_def)
  ultimately show ?thesis
    by (simp add: audience_db0 numeral_2_eq_2)
qed

text \<open>
  Claim C8: a launch that passes the dispatcher's checks saves the campaign with status
  COMPLETED whatever the vendor did; when no send is accepted the campaign is COMPLETED
  with \<open>stats.sent = 0\<close> and \<open>stats.failed = N\<close>.
\<close>

theorem C8_completed:
  assumes seg: "segments d (inSegmentId inp) = Some sg"
    and aud: "audience rt sg d \<noteq> []"
    and fresh: "campaigns d newId = None"
    and run: "launch rt v newId user (Inr inp) d = (resp, d')"
  shows "\<exists>c. resp = (201, Launched c) \<and> campaigns d' newId = Some c
      \<and> cstatus c = ''COMPLETED''
      \<and> ((\<forall>l \<in> set (pendingLogs rt newId (inMessage inp) (audience rt sg d)).
             sendMessage v l \<noteq> Accepted)
           \<longrightarrow> sent (stats c) = 0 \<and> failed (stats c) = length (audience rt sg d))"
proof -
  let ?p = "pendingLogs rt newId (inMessage inp) (audience rt sg d)"
  let ?c = "completed rt v user inp ?p"
  have len: "length ?p = length (audience rt sg d)"
    by (simp add: pendingLogs_def)
  have r: "resp = (201, Launched ?c)"
    and d': "d' = d\<lparr>campaigns := (campaigns d)(newId \<mapsto> ?c),
                 logs := logs d @ map (settledLog rt v) ?p\<rparr>"
    using run launch_ok [OF seg aud fresh, of v user] by simp_all
  have "campaigns d' newId = Some ?c" by (simp add: d')
  moreover have "cstatus ?c = ''COMPLETED''" by (simp add: completed_def)
  moreover have "sent (stats ?c) = 0 \<and> failed (stats ?c) = length (audience rt sg d)"
    if "\<forall>l \<in> set ?p. sendMessage v l \<noteq> Accepted"
  proof -
    from that have "filter (accepted v) ?p = []" and "filter (\<lambda>l. \<not> accepted v l) ?p = ?p"
      by (simp_all add: accepted_def filter_empty_conv filter_id_conv)
    then show ?thesis by (simp add: completed_def len)
  qed
  ultimately show ?thesis
    using r by blast
qed

theorem C8_completed_witness:
  "\<exists>c. campaigns db2 camp0 = Some c \<and> cstatus c = ''COMPLETED''
       \<and> sent (stats c) = 0 \<and> failed (stats c) = 2"
  using C8_completed [OF launch_db0(1) launch_db0_audience launch_db0(2) run_db2]
  by (auto simp add: audience_db0 pendingLogs_def sendMessage_def rejectAll_def)

text \<open>
  Claim C9: a receipt whose \<open>vendorMessageId\<close> is the id of no log is answered with 404
  and the database is returned as it was.
\<close>

theorem C9_unknown_receipt:
  assumes "rVendorMessageId r \<notin> vendorMessageId ` set (logs d)"
  shows "ingest r d = ((404, ErrorBody ''Communication log not found''), d)"
  using assms by (simp add: ingest_unknown findOne_None)

theorem C9_unknown_receipt_witness:
  "ingest \<lparr>rVendorMessageId = ''msg_unknown'', rStatus = StatusText ''DELIVERED'', rDeliveredAt = NoDate\<rparr> db1
     = ((404, ErrorBody ''Communication log not found''), db1)"
  using C9_unknown_receipt [of "\<lparr>rVendorMessageId = ''msg_unknown'', rStatus = StatusText ''DELIVERED'',
      rDeliveredAt = NoDate\<rparr>" db1]
  by (simp add: logs_db1 ashaMessageId_def)

end
